theory Spec2Isabelle
  imports Main "HOL-Library.Char_ord" "HOL-Library.Sublist"
begin

section \<open>The mock service of ns1-go: registered test cases\<close>

text \<open>
  The second part of \<^verbatim>\<open>src/rest/dns_view.go\<close> is package \<^verbatim>\<open>mockns1\<close>: the type
  \<^verbatim>\<open>testCase\<close>, \<^verbatim>\<open>AddTestCase\<close>, \<^verbatim>\<open>ClearTestCases\<close> and \<^verbatim>\<open>convertBody\<close>.
  Go strings and byte slices are sequences of bytes, here \<^typ>\<open>string\<close>. A slice and a map
  can be \<^verbatim>\<open>nil\<close>, which Go's equality tests tell apart from an empty one, so both carry an
  \<^typ>\<open>'a option\<close> with \<^term>\<open>None\<close> for \<^verbatim>\<open>nil\<close>.
\<close>

type_synonym bytes = "string option"

text \<open>\<^verbatim>\<open>http.Header\<close> is \<^verbatim>\<open>map[string][]string\<close>.\<close>

type_synonym Header = "(string \<rightharpoonup> string list option) option"

text \<open>
  \<^verbatim>\<open>testCase\<close> (lines 429-440): the nested anonymous structs \<^verbatim>\<open>request\<close> and
  \<^verbatim>\<open>response\<close> are flattened, their fields prefixed.
\<close>

record testCase =
  status :: int
  request_headers :: Header
  request_body :: bytes
  request_json :: bool
  response_headers :: Header
  response_body :: bytes

text \<open>\<^verbatim>\<open>api.Param\<close>, a struct of two strings.\<close>

record Param =
  Key :: string
  Value :: string

text \<open>
  The value of an \<^verbatim>\<open>interface{}\<close> argument, by the cases \<^verbatim>\<open>convertBody\<close>'s type switch
  tells apart: the nil interface, a \<^verbatim>\<open>[]byte\<close>, a \<^verbatim>\<open>string\<close>, and a value of any other
  type.
\<close>

datatype 'a go_value = GoNil | GoBytes bytes | GoString string | GoOther 'a

datatype error =
    CouldNotParseURI                \<comment> \<open>\<^verbatim>\<open>could not parse testcase uri\<close>\<close>
  | ConvertRequestBody string       \<comment> \<open>\<^verbatim>\<open>unable to convert request body to []byte: %s\<close>\<close>
  | ConvertResponseBody string      \<comment> \<open>\<^verbatim>\<open>unable to convert response body to []byte: %s\<close>\<close>
  | AlreadyRegistered               \<comment> \<open>\<^verbatim>\<open>test case already registered\<close>\<close>

text \<open>
  \<^verbatim>\<open>s.tests\<close> is \<^verbatim>\<open>map[string]map[string][]*testCase\<close>: method, then uri, then the list
  of test cases in the order they were added. The maps are the ones \<^verbatim>\<open>ClearTestCases\<close> and
  \<^verbatim>\<open>AddTestCase\<close> make, which are never nil.
\<close>

type_synonym tests_map = "string \<rightharpoonup> (string \<rightharpoonup> testCase list)"

datatype timer_call = StopTimer | StartTimer

record Service =
  tests :: tests_map
  timer :: "timer_call list"

text \<open>
  Modelled from the spec: \<^verbatim>\<open>stopTimer\<close> and \<^verbatim>\<open>startTimer\<close> are methods of \<^verbatim>\<open>Service\<close>
  that are not in the source file. The spec says they pause and resume the background timer
  of the mock service; the model records each call, in order, in the field \<^term>\<open>timer\<close>.
\<close>

definition stopTimer :: "Service \<Rightarrow> Service" where
  "stopTimer s = s\<lparr>timer := timer s @ [StopTimer]\<rparr>"

definition startTimer :: "Service \<Rightarrow> Service" where
  "startTimer s = s\<lparr>timer := timer s @ [StartTimer]\<rparr>"

text \<open>The timer runs when the last recorded call, if any, is \<^verbatim>\<open>startTimer\<close>.\<close>

fun timer_running :: "timer_call list \<Rightarrow> bool" where
  "timer_running [] = True"
| "timer_running [c] = (c = StartTimer)"
| "timer_running (c # cs) = timer_running cs"

section \<open>The library calls of \<^verbatim>\<open>AddTestCase\<close>\<close>

subsection \<open>\<^verbatim>\<open>strings\<close>\<close>

text \<open>\<^verbatim>\<open>strings.Cut(s, sep)\<close> for a separator of one byte; both callers drop \<^verbatim>\<open>found\<close>.\<close>

definition Cut :: "string \<Rightarrow> char \<Rightarrow> string \<times> string" where
  "Cut s sep = (takeWhile (\<lambda>c. c \<noteq> sep) s, drop 1 (dropWhile (\<lambda>c. c \<noteq> sep) s))"

text \<open>
  \<^verbatim>\<open>strings.Replace(uri, "//", "/", -1)\<close>: every non-overlapping \<^verbatim>\<open>//\<close>, found from the
  left, becomes \<^verbatim>\<open>/\<close>.
\<close>

fun Replace_slashes :: "string \<Rightarrow> string" where
  "Replace_slashes (a # b # s) =
     (if a = CHR ''/'' \<and> b = CHR ''/'' then CHR ''/'' # Replace_slashes s
      else a # Replace_slashes (b # s))"
| "Replace_slashes s = s"

text \<open>\<^verbatim>\<open>strings.Split(s, "/")\<close>-like enumeration of the elements between separators.\<close>

fun split_on :: "char \<Rightarrow> string \<Rightarrow> string list" where
  "split_on sep [] = [[]]"
| "split_on sep (c # s) =
     (if c = sep then [] # split_on sep s
      else (case split_on sep s of [] \<Rightarrow> [[c]] | e # es \<Rightarrow> (c # e) # es))"

subsection \<open>\<^verbatim>\<open>net/url\<close>\<close>

text \<open>
  \<^verbatim>\<open>AddTestCase\<close> parses a string that starts with \<^verbatim>\<open>/v1/\<close> (it puts the prefix there
  when it is missing), and the constant \<^verbatim>\<open>/\<close>. On a raw URL whose first byte is \<^verbatim>\<open>/\<close>
  and whose second byte is not, \<^verbatim>\<open>getScheme\<close> finds no scheme and \<^verbatim>\<open>parse\<close> no authority
  and no opaque part, so \<^verbatim>\<open>Scheme\<close>, \<^verbatim>\<open>Opaque\<close>, \<^verbatim>\<open>User\<close>, \<^verbatim>\<open>Host\<close> stay empty. The model
  is \<^verbatim>\<open>net/url\<close> on such inputs: it keeps the other fields of \<^verbatim>\<open>url.URL\<close> and the branches
  they decide.
\<close>

record URL =
  Path :: string
  RawPath :: string
  ForceQuery :: bool
  RawQuery :: string
  Fragment :: string

definition stringContainsCTLByte :: "string \<Rightarrow> bool" where
  "stringContainsCTLByte s = list_ex (\<lambda>b. b < CHR 0x20 \<or> b = CHR 0x7F) s"

text \<open>Go's \<^verbatim>\<open>lo <= c && c <= hi\<close> on bytes.\<close>

definition in_range :: "char \<Rightarrow> char \<Rightarrow> char \<Rightarrow> bool" where
  [simp]: "in_range lo hi c = (lo \<le> c \<and> c \<le> hi)"

definition ishex :: "char \<Rightarrow> bool" where
  "ishex c = (in_range CHR ''0'' CHR ''9'' c \<or> in_range CHR ''a'' CHR ''f'' c
              \<or> in_range CHR ''A'' CHR ''F'' c)"

definition unhex :: "char \<Rightarrow> nat" where
  "unhex c =
     (if in_range CHR ''0'' CHR ''9'' c then of_char c - of_char CHR ''0''
      else if in_range CHR ''a'' CHR ''f'' c then of_char c - of_char CHR ''a'' + 10
      else if in_range CHR ''A'' CHR ''F'' c then of_char c - of_char CHR ''A'' + 10
      else 0)"

text \<open>
  \<^verbatim>\<open>unescape(s, mode)\<close> for the modes \<^verbatim>\<open>encodePath\<close> and \<^verbatim>\<open>encodeFragment\<close>, which
  differ in nothing here: a \<^verbatim>\<open>%\<close> not followed by two hex digits is an error
  (\<^term>\<open>None\<close>), \<^verbatim>\<open>%XX\<close> is decoded, every other byte is kept.
\<close>

fun unescape :: "string \<Rightarrow> string option" where
  "unescape [] = Some []"
| "unescape (c # s) =
     (if c = CHR ''%'' then
        (case s of
           h1 # h2 # s' \<Rightarrow>
             if ishex h1 \<and> ishex h2
             then map_option ((#) (char_of (unhex h1 * 16 + unhex h2))) (unescape s')
             else None
         | _ \<Rightarrow> None)
      else map_option ((#) c) (unescape s))"

text \<open>\<^verbatim>\<open>shouldEscape(c, encodePath)\<close>.\<close>

definition shouldEscape :: "char \<Rightarrow> bool" where
  "shouldEscape c =
     (if in_range CHR ''a'' CHR ''z'' c \<or> in_range CHR ''A'' CHR ''Z'' c
         \<or> in_range CHR ''0'' CHR ''9'' c then False
      else if c \<in> set ''-_.~'' then False
      else if c \<in> set ''$&+,/:;=?@'' then c = CHR ''?''
      else True)"

definition upperhex :: string where
  "upperhex = ''0123456789ABCDEF''"

text \<open>\<^verbatim>\<open>escape(s, encodePath)\<close>.\<close>

fun escape :: "string \<Rightarrow> string" where
  "escape [] = []"
| "escape (c # s) =
     (if shouldEscape c
      then CHR ''%'' # upperhex ! (of_char c div 16) # upperhex ! (of_char c mod 16) # escape s
      else c # escape s)"

text \<open>\<^verbatim>\<open>validEncoded(s, encodePath)\<close>.\<close>

definition validEncoded :: "string \<Rightarrow> bool" where
  "validEncoded s =
     list_all (\<lambda>c. c \<in> set (''!$&'' @ [CHR 0x27] @ ''()*+,;=:@[]%'') \<or> \<not> shouldEscape c) s"

text \<open>\<^verbatim>\<open>(*URL).setPath\<close>; \<^term>\<open>None\<close> is its error.\<close>

definition setPath :: "URL \<Rightarrow> string \<Rightarrow> URL option" where
  "setPath u p =
     (case unescape p of
        None \<Rightarrow> None
      | Some path \<Rightarrow> Some (u\<lparr>Path := path, RawPath := (if p = escape path then [] else p)\<rparr>))"

text \<open>\<^verbatim>\<open>(*URL).EscapedPath\<close>.\<close>

definition EscapedPath :: "URL \<Rightarrow> string" where
  "EscapedPath u =
     (if RawPath u \<noteq> [] \<and> validEncoded (RawPath u) \<and> unescape (RawPath u) = Some (Path u)
      then RawPath u
      else if Path u = ''*'' then ''*''
      else escape (Path u))"

text \<open>
  \<^verbatim>\<open>url.Parse\<close>: the fragment is cut off, a control byte in the rest is an error, the query
  is split off, the path is set, then the fragment. \<^term>\<open>None\<close> is any error:
  \<^verbatim>\<open>AddTestCase\<close> reads only whether there is one.
\<close>

definition url_Parse :: "string \<Rightarrow> URL option" where
  "url_Parse rawURL =
     (let (u, frag) = Cut rawURL CHR ''#'' in
      if stringContainsCTLByte u then None
      else
        let (rest, force, query) =
              (if u \<noteq> [] \<and> last u = CHR ''?'' \<and> count_list u CHR ''?'' = 1
               then (butlast u, True, [])
               else (fst (Cut u CHR ''?''), False, snd (Cut u CHR ''?'')))
        in case setPath \<lparr>Path = [], RawPath = [], ForceQuery = force, RawQuery = query,
                         Fragment = []\<rparr> rest of
             None \<Rightarrow> None
           | Some url \<Rightarrow>
               if frag = [] then Some url
               else (case unescape frag of
                       None \<Rightarrow> None
                     | Some f \<Rightarrow> Some (url\<lparr>Fragment := f\<rparr>)))"

text \<open>
  The loop of \<^verbatim>\<open>resolvePath\<close> over the elements of the path: \<^verbatim>\<open>dst\<close> is the string
  built so far, \<^verbatim>\<open>first\<close> says that no separator is due before the next element.
\<close>

definition lastIndexSlash :: "string \<Rightarrow> nat option" where
  "lastIndexSlash s =
     (if CHR ''/'' \<in> set s then Some (length s - Suc (length (takeWhile (\<lambda>c. c \<noteq> CHR ''/'') (rev s))))
      else None)"

fun resolveElems :: "string list \<Rightarrow> string \<Rightarrow> bool \<Rightarrow> string" where
  "resolveElems [] dst first = dst"
| "resolveElems (elem # rest) dst first =
     (if elem = ''.'' then resolveElems rest dst False
      else if elem = ''..'' then
        (case lastIndexSlash (drop 1 dst) of
           None \<Rightarrow> resolveElems rest ''/'' True
         | Some index \<Rightarrow> resolveElems rest (CHR ''/'' # take index (drop 1 dst)) first)
      else resolveElems rest ((if first then dst else dst @ ''/'') @ elem) False)"

definition resolvePath :: "string \<Rightarrow> string \<Rightarrow> string" where
  "resolvePath base ref =
     (let full = (if ref = [] then base
                  else if hd ref \<noteq> CHR ''/''
                  then rev (dropWhile (\<lambda>c. c \<noteq> CHR ''/'') (rev base)) @ ref
                  else ref)
      in if full = [] then []
         else
           let elems = split_on CHR ''/'' full;
               dst = resolveElems elems ''/'' True;
               r = (if last elems = ''.'' \<or> last elems = ''..'' then dst @ ''/'' else dst)
           in if length r > 1 \<and> r ! 1 = CHR ''/'' then drop 1 r else r)"

text \<open>
  \<^verbatim>\<open>(*URL).ResolveReference\<close> for a base and a reference without scheme, host, user and
  opaque part. The error of \<^verbatim>\<open>setPath\<close> is ignored, as in the library: the copy of the
  reference then keeps its path.
\<close>

definition ResolveReference :: "URL \<Rightarrow> URL \<Rightarrow> URL" where
  "ResolveReference u ref =
     (let url = (if Path ref = [] \<and> \<not> ForceQuery ref \<and> RawQuery ref = []
                 then (let url = ref\<lparr>RawQuery := RawQuery u\<rparr>
                       in if Fragment ref = [] then url\<lparr>Fragment := Fragment u\<rparr> else url)
                 else ref)
      in case setPath url (resolvePath (EscapedPath u) (EscapedPath ref)) of
           None \<Rightarrow> url
         | Some url' \<Rightarrow> url')"

text \<open>\<^verbatim>\<open>(*URL).RequestURI\<close> with an empty \<^verbatim>\<open>Opaque\<close>.\<close>

definition RequestURI :: "URL \<Rightarrow> string" where
  "RequestURI u =
     (let result = (if EscapedPath u = [] then ''/'' else EscapedPath u)
      in if ForceQuery u \<or> RawQuery u \<noteq> [] then result @ ''?'' @ RawQuery u else result)"

text \<open>\<^verbatim>\<open>baseUri, _ := url.Parse("/")\<close> (line 457).\<close>

definition baseUri :: URL where
  "baseUri = \<lparr>Path = ''/'', RawPath = [], ForceQuery = False, RawQuery = [], Fragment = []\<rparr>"

subsection \<open>\<^verbatim>\<open>encoding/json\<close>\<close>

text \<open>
  \<^verbatim>\<open>json.Marshal\<close> on the values \<^verbatim>\<open>convertBody\<close> passes to it. The nil interface encodes
  as \<^verbatim>\<open>null\<close>. What the encoder does with a value of another type is the parameter
  \<open>enc\<close>: the encoding, or the message of the error (a channel or a function, for one,
  has no encoding). On an error the data is the nil slice.
\<close>

definition json_Marshal :: "('a \<Rightarrow> string + string) \<Rightarrow> 'a option \<Rightarrow> bytes \<times> string option" where
  "json_Marshal enc v =
     (case v of
        None \<Rightarrow> (Some ''null'', None)
      | Some x \<Rightarrow> (case enc x of Inl err \<Rightarrow> (None, Some err) | Inr data \<Rightarrow> (Some data, None)))"

section \<open>The functions of the source\<close>

text \<open>\<^verbatim>\<open>convertBody\<close> (lines 516-526): the data, the \<^verbatim>\<open>json\<close> flag, the error.\<close>

fun convertBody :: "('a \<Rightarrow> string + string) \<Rightarrow> 'a go_value \<Rightarrow> bytes \<times> bool \<times> string option" where
  "convertBody enc (GoBytes b) = (b, False, None)"
| "convertBody enc (GoString b) = (Some b, False, None)"
| "convertBody enc GoNil = (fst (json_Marshal enc None), True, snd (json_Marshal enc None))"
| "convertBody enc (GoOther x) =
     (fst (json_Marshal enc (Some x)), True, snd (json_Marshal enc (Some x)))"

text \<open>Lines 453-455.\<close>

definition ensure_v1 :: "string \<Rightarrow> string" where
  "ensure_v1 uri = (if \<not> prefix ''/v1/'' uri then ''/v1/'' @ uri else uri)"

text \<open>Lines 465-471: the first parameter after \<^verbatim>\<open>?\<close>, each further one after \<^verbatim>\<open>&\<close>.\<close>

fun more_params :: "string \<Rightarrow> Param list \<Rightarrow> string" where
  "more_params uri [] = uri"
| "more_params uri (p # ps) = more_params (uri @ ''&'' @ Key p @ ''='' @ Value p) ps"

definition with_params :: "string \<Rightarrow> Param list \<Rightarrow> string" where
  "with_params uri params =
     (case params of
        [] \<Rightarrow> uri
      | p # ps \<Rightarrow> more_params (uri @ ''?'' @ Key p @ ''='' @ Value p) ps)"

text \<open>
  Lines 453-473, the uri under which the test case is filed: \<^term>\<open>None\<close> when \<^verbatim>\<open>url.Parse\<close>
  returns an error.
\<close>

definition testcase_uri :: "string \<Rightarrow> Param list \<Rightarrow> string option" where
  "testcase_uri uri params =
     (case url_Parse (ensure_v1 uri) of
        None \<Rightarrow> None
      | Some rel \<Rightarrow>
          Some (Replace_slashes (with_params (RequestURI (ResolveReference baseUri rel)) params)))"

text \<open>
  Reading \<^verbatim>\<open>s.tests[method]\<close> and \<^verbatim>\<open>s.tests[method][uri]\<close>: a missing key reads as the
  zero value, an empty map and an empty list.
\<close>

definition tests_of_method :: "tests_map \<Rightarrow> string \<Rightarrow> (string \<rightharpoonup> testCase list)" where
  "tests_of_method t method = (case t method of None \<Rightarrow> Map.empty | Some by_uri \<Rightarrow> by_uri)"

definition tests_at :: "tests_map \<Rightarrow> string \<Rightarrow> string \<Rightarrow> testCase list" where
  "tests_at t method uri = (case tests_of_method t method uri of None \<Rightarrow> [] | Some l \<Rightarrow> l)"

text \<open>Lines 489-491, lines 492-494 and line 506.\<close>

definition ensure_method :: "tests_map \<Rightarrow> string \<Rightarrow> tests_map" where
  "ensure_method t method = (if t method = None then t(method \<mapsto> Map.empty) else t)"

definition ensure_bucket :: "tests_map \<Rightarrow> string \<Rightarrow> string \<Rightarrow> tests_map" where
  "ensure_bucket t method uri =
     (if tests_of_method t method uri = None
      then t(method \<mapsto> (tests_of_method t method)(uri \<mapsto> []))
      else t)"

definition append_test :: "tests_map \<Rightarrow> string \<Rightarrow> string \<Rightarrow> testCase \<Rightarrow> tests_map" where
  "append_test t method uri tc =
     t(method \<mapsto> (tests_of_method t method)(uri \<mapsto> tests_at t method uri @ [tc]))"

text \<open>
  The loop of lines 497-504. \<^verbatim>\<open>assert.Equal\<close> on two \<^verbatim>\<open>[]byte\<close> is true when both are nil
  or neither is and the bytes are equal; on two \<^verbatim>\<open>http.Header\<close> it is
  \<^verbatim>\<open>reflect.DeepEqual\<close>, true when both maps are nil or neither is and they have the same
  keys with deeply equal values. Both are the equality of the model's types.
\<close>

fun already_registered :: "testCase \<Rightarrow> testCase list \<Rightarrow> bool" where
  "already_registered tc [] = False"
| "already_registered tc (test # rest) =
     (let header = (request_headers tc = request_headers test);
          body = (request_body tc = request_body test)
      in if header \<and> body then True else already_registered tc rest)"

text \<open>
  \<^verbatim>\<open>AddTestCase\<close> (lines 444-509) between \<^verbatim>\<open>s.stopTimer()\<close> and the deferred
  \<^verbatim>\<open>s.startTimer()\<close>: the error returned, if any, and the service.
\<close>

definition AddTestCase_body ::
  "('a \<Rightarrow> string + string) \<Rightarrow> Service \<Rightarrow> string \<Rightarrow> string \<Rightarrow> int \<Rightarrow> Header \<Rightarrow> Header \<Rightarrow>
   'a go_value \<Rightarrow> 'a go_value \<Rightarrow> Param list \<Rightarrow> error option \<times> Service" where
  "AddTestCase_body enc s method uri returnStatus requestHeaders responseHeaders
     requestBody responseBody params =
     (case testcase_uri uri params of
        None \<Rightarrow> (Some CouldNotParseURI, s)
      | Some uri' \<Rightarrow>
          (case convertBody enc requestBody of
             (_, _, Some err) \<Rightarrow> (Some (ConvertRequestBody err), s)
           | (reqBody, reqJson, None) \<Rightarrow>
               (case convertBody enc responseBody of
                  (_, _, Some err) \<Rightarrow> (Some (ConvertResponseBody err), s)
                | (respBody, _, None) \<Rightarrow>
                    (let tc = \<lparr>status = returnStatus, request_headers = requestHeaders,
                               request_body = reqBody, request_json = reqJson,
                               response_headers = responseHeaders, response_body = respBody\<rparr>;
                         t1 = ensure_method (tests s) method;
                         t2 = ensure_bucket t1 method uri'
                     in if already_registered tc (tests_at t2 method uri')
                        then (Some AlreadyRegistered, s\<lparr>tests := t2\<rparr>)
                        else (None, s\<lparr>tests := append_test t2 method uri' tc\<rparr>)))))"

text \<open>\<^verbatim>\<open>AddTestCase\<close>: the deferred call runs on every return.\<close>

definition AddTestCase ::
  "('a \<Rightarrow> string + string) \<Rightarrow> Service \<Rightarrow> string \<Rightarrow> string \<Rightarrow> int \<Rightarrow> Header \<Rightarrow> Header \<Rightarrow>
   'a go_value \<Rightarrow> 'a go_value \<Rightarrow> Param list \<Rightarrow> error option \<times> Service" where
  "AddTestCase enc s method uri returnStatus requestHeaders responseHeaders
     requestBody responseBody params =
     (let s1 = stopTimer s;
          (err, s2) = AddTestCase_body enc s1 method uri returnStatus requestHeaders
                        responseHeaders requestBody responseBody params
      in (err, startTimer s2))"

text \<open>\<^verbatim>\<open>ClearTestCases\<close> (lines 512-514).\<close>

definition ClearTestCases :: "Service \<Rightarrow> Service" where
  "ClearTestCases s = s\<lparr>tests := Map.empty\<rparr>"

section \<open>Predicates of the registry\<close>

text \<open>
  No bucket holds two entries, at different positions, with the same request headers and the
  same request body.
\<close>

definition no_true_duplicates :: "tests_map \<Rightarrow> bool" where
  "no_true_duplicates t =
     (\<forall>method uri i j.
        i < length (tests_at t method uri) \<and> j < length (tests_at t method uri) \<and> i \<noteq> j \<longrightarrow>
        request_headers (tests_at t method uri ! i) \<noteq> request_headers (tests_at t method uri ! j)
        \<or> request_body (tests_at t method uri ! i) \<noteq> request_body (tests_at t method uri ! j))"

text \<open>
  The services a run can reach: it starts with no test case, then calls \<^verbatim>\<open>AddTestCase\<close>
  and \<^verbatim>\<open>ClearTestCases\<close> in any order.
\<close>

inductive reachable :: "('a \<Rightarrow> string + string) \<Rightarrow> Service \<Rightarrow> bool" for enc where
  new: "tests s = Map.empty \<Longrightarrow> reachable enc s"
| add: "reachable enc s \<Longrightarrow>
        reachable enc (snd (AddTestCase enc s method uri st rh ph rb pb params))"
| clear: "reachable enc s \<Longrightarrow> reachable enc (ClearTestCases s)"

text \<open>
  An encoder for the examples: the only value of the other type is a channel, which
  \<^verbatim>\<open>json.Marshal\<close> refuses with an \<^verbatim>\<open>UnsupportedTypeError\<close>.
\<close>

definition chan_enc :: "unit \<Rightarrow> string + string" where
  "chan_enc x = Inl ''json: unsupported type: chan int''"

text \<open>A service with no test case, and the service after one registration.\<close>

definition new_service :: Service where
  "new_service = \<lparr>tests = Map.empty, timer = []\<rparr>"

definition registered_once :: Service where
  "registered_once =
     snd (AddTestCase chan_enc new_service ''GET'' ''zones/x'' 200 None None
            (GoString ''a'') (GoString ''b'') [])"

text \<open>Whether two slashes stand side by side somewhere in a string.\<close>

fun has_double_slash :: "string \<Rightarrow> bool" where
  "has_double_slash (a # b # s) = (a = CHR ''/'' \<and> b = CHR ''/'' \<or> has_double_slash (b # s))"
| "has_double_slash s = False"

text \<open>
  The query of the spec's words, to compare with lines 465-471: \<^verbatim>\<open>?\<close>, the first
  \<^verbatim>\<open>key=value\<close>, then \<^verbatim>\<open>&key=value\<close> for each further parameter in the order given.
\<close>

definition query_of :: "Param \<Rightarrow> Param list \<Rightarrow> string" where
  "query_of p ps =
     ''?'' @ Key p @ ''='' @ Value p @ concat (map (\<lambda>q. ''&'' @ Key q @ ''='' @ Value q) ps)"

text \<open>
  A parameter that can be read back from the query: no \<^verbatim>\<open>=\<close> and no \<^verbatim>\<open>&\<close> in the key, no
  \<^verbatim>\<open>&\<close> in the value, and no \<^verbatim>\<open>//\<close> in either.
\<close>

definition plain_param :: "Param \<Rightarrow> bool" where
  "plain_param q =
     (CHR ''='' \<notin> set (Key q) \<and> CHR ''&'' \<notin> set (Key q) \<and> CHR ''&'' \<notin> set (Value q)
      \<and> \<not> has_double_slash (Key q) \<and> \<not> has_double_slash (Value q))"

text \<open>
  A path of bytes that the path encoding leaves alone (letters, digits and
  \<^verbatim>\<open>-_.~$&+,/:;=@\<close>), without \<^verbatim>\<open>//\<close> and without an element \<^verbatim>\<open>.\<close> or \<^verbatim>\<open>..\<close>.
\<close>

definition plain_path :: "string \<Rightarrow> bool" where
  "plain_path u =
     (list_all (\<lambda>c. \<not> shouldEscape c) u \<and> \<not> has_double_slash u
      \<and> ''.'' \<notin> set (split_on CHR ''/'' u) \<and> ''..'' \<notin> set (split_on CHR ''/'' u))"

section \<open>Basic facts\<close>

lemma url_Parse_root: "url_Parse ''/'' = Some baseUri"
  by (simp add: url_Parse_def Cut_def stringContainsCTLByte_def setPath_def baseUri_def
      shouldEscape_def)

lemma tests_at_ensure [simp]:
  "tests_at (ensure_bucket (ensure_method t method) method uri) method uri = tests_at t method uri"
  by (auto simp: tests_at_def tests_of_method_def ensure_bucket_def ensure_method_def
      split: option.splits)

lemma ensure_unchanged:
  "tests_at t method uri \<noteq> [] \<Longrightarrow> ensure_bucket (ensure_method t method) method uri = t"
  by (auto simp: tests_at_def tests_of_method_def ensure_bucket_def ensure_method_def
      split: option.splits)

lemma append_test_ensure [simp]:
  "append_test (ensure_bucket (ensure_method t method) method uri) method uri tc
   = append_test t method uri tc"
  by (auto simp: append_test_def tests_at_def tests_of_method_def ensure_bucket_def
      ensure_method_def split: option.splits)

lemma already_registered_iff:
  "already_registered tc l
   = (\<exists>test \<in> set l. request_headers tc = request_headers test \<and> request_body tc = request_body test)"
  by (induction l) (auto simp: Let_def)

lemma already_registered_nonempty: "already_registered tc l \<Longrightarrow> l \<noteq> []"
  by (cases l) auto

lemma AddTestCase_parse_error:
  assumes "testcase_uri uri params = None"
  shows "AddTestCase enc s method uri st rh ph rb pb params
         = (Some CouldNotParseURI, s\<lparr>timer := timer s @ [StopTimer, StartTimer]\<rparr>)"
  using assms by (simp add: AddTestCase_def AddTestCase_body_def stopTimer_def startTimer_def)

lemma AddTestCase_request_error:
  assumes "testcase_uri uri params = Some key"
    and "convertBody enc rb = (d, j, Some err)"
  shows "AddTestCase enc s method uri st rh ph rb pb params
         = (Some (ConvertRequestBody err), s\<lparr>timer := timer s @ [StopTimer, StartTimer]\<rparr>)"
  using assms by (simp add: AddTestCase_def AddTestCase_body_def stopTimer_def startTimer_def)

lemma AddTestCase_response_error:
  assumes "testcase_uri uri params = Some key"
    and "convertBody enc rb = (d, j, None)"
    and "convertBody enc pb = (d', j', Some err)"
  shows "AddTestCase enc s method uri st rh ph rb pb params
         = (Some (ConvertResponseBody err), s\<lparr>timer := timer s @ [StopTimer, StartTimer]\<rparr>)"
  using assms by (simp add: AddTestCase_def AddTestCase_body_def stopTimer_def startTimer_def)

lemma AddTestCase_duplicate:
  assumes "testcase_uri uri params = Some key"
    and "convertBody enc rb = (d, j, None)"
    and "convertBody enc pb = (d', j', None)"
    and "already_registered \<lparr>status = st, request_headers = rh, request_body = d,
           request_json = j, response_headers = ph, response_body = d'\<rparr> (tests_at (tests s) method key)"
  shows "AddTestCase enc s method uri st rh ph rb pb params
         = (Some AlreadyRegistered, s\<lparr>timer := timer s @ [StopTimer, StartTimer]\<rparr>)"
  using assms already_registered_nonempty[OF assms(4)]
  by (simp add: AddTestCase_def AddTestCase_body_def stopTimer_def startTimer_def ensure_unchanged)

lemma AddTestCase_added:
  assumes "testcase_uri uri params = Some key"
    and "convertBody enc rb = (d, j, None)"
    and "convertBody enc pb = (d', j', None)"
    and "\<not> already_registered \<lparr>status = st, request_headers = rh, request_body = d,
           request_json = j, response_headers = ph, response_body = d'\<rparr> (tests_at (tests s) method key)"
  shows "AddTestCase enc s method uri st rh ph rb pb params
         = (None, s\<lparr>tests := append_test (tests s) method key
                \<lparr>status = st, request_headers = rh, request_body = d,
                 request_json = j, response_headers = ph, response_body = d'\<rparr>,
              timer := timer s @ [StopTimer, StartTimer]\<rparr>)"
  using assms
  by (simp add: AddTestCase_def AddTestCase_body_def stopTimer_def startTimer_def)

lemma tests_at_append_test:
  "tests_at (append_test t method uri tc) method uri = tests_at t method uri @ [tc]"
  by (simp add: append_test_def tests_at_def tests_of_method_def)

lemma append_test_other_method:
  "m \<noteq> method \<Longrightarrow> append_test t method uri tc m = t m"
  by (simp add: append_test_def)

lemma append_test_other_uri:
  "u \<noteq> uri \<Longrightarrow> tests_of_method (append_test t method uri tc) method u = tests_of_method t method u"
  by (simp add: append_test_def tests_of_method_def)

lemma tests_at_append_test_other:
  "(m, u) \<noteq> (method, uri) \<Longrightarrow> tests_at (append_test t method uri tc) m u = tests_at t m u"
  by (auto simp: append_test_def tests_at_def tests_of_method_def)

lemma timer_running_start [simp]: "timer_running (l @ [StartTimer])"
  by (induction l rule: timer_running.induct) auto

lemma AddTestCase_timer:
  "timer (snd (AddTestCase enc s method uri st rh ph rb pb params)) = timer s @ [StopTimer, StartTimer]"
  by (simp add: AddTestCase_def AddTestCase_body_def stopTimer_def startTimer_def Let_def
      split: option.splits prod.splits)

lemma AddTestCase_cases:
  obtains (parse) "testcase_uri uri params = None"
  | (request) key d j err where "testcase_uri uri params = Some key" "convertBody enc rb = (d, j, Some err)"
  | (response) key d j d' j' err where "testcase_uri uri params = Some key"
      "convertBody enc rb = (d, j, None)" "convertBody enc pb = (d', j', Some err)"
  | (converted) key d j d' j' where "testcase_uri uri params = Some key"
      "convertBody enc rb = (d, j, None)" "convertBody enc pb = (d', j', None)"
proof (cases "testcase_uri uri params")
  case None then show ?thesis by (rule parse)
next
  case (Some key)
  obtain d j e where rb: "convertBody enc rb = (d, j, e)" by (cases "convertBody enc rb") auto
  obtain d' j' e' where pb: "convertBody enc pb = (d', j', e')" by (cases "convertBody enc pb") auto
  show ?thesis
  proof (cases e)
    case (Some err) with \<open>testcase_uri uri params = Some key\<close> rb show ?thesis by (auto intro: request)
  next
    case None
    show ?thesis
    proof (cases e')
      case (Some err) with \<open>testcase_uri uri params = Some key\<close> rb pb None show ?thesis
        by (auto intro: response)
    next
      case e'N: None with \<open>testcase_uri uri params = Some key\<close> rb pb None show ?thesis
        by (auto intro: converted)
    qed
  qed
qed

lemma AddTestCase_tests_only:
  assumes "tests s = tests s'"
  shows "fst (AddTestCase enc s method uri st rh ph rb pb params)
          = fst (AddTestCase enc s' method uri st rh ph rb pb params)
       \<and> tests (snd (AddTestCase enc s method uri st rh ph rb pb params))
          = tests (snd (AddTestCase enc s' method uri st rh ph rb pb params))"
  using assms
  by (simp add: AddTestCase_def AddTestCase_body_def stopTimer_def startTimer_def Let_def
      split: option.splits prod.splits)

lemma AddTestCase_success:
  assumes "fst (AddTestCase enc s method uri st rh ph rb pb params) = None"
  obtains key where "testcase_uri uri params = Some key"
    and "snd (snd (convertBody enc rb)) = None" and "snd (snd (convertBody enc pb)) = None"
    and "\<not> already_registered \<lparr>status = st, request_headers = rh,
             request_body = fst (convertBody enc rb), request_json = fst (snd (convertBody enc rb)),
             response_headers = ph, response_body = fst (convertBody enc pb)\<rparr>
           (tests_at (tests s) method key)"
    and "snd (AddTestCase enc s method uri st rh ph rb pb params)
         = s\<lparr>tests := append_test (tests s) method key
                \<lparr>status = st, request_headers = rh,
                 request_body = fst (convertBody enc rb), request_json = fst (snd (convertBody enc rb)),
                 response_headers = ph, response_body = fst (convertBody enc pb)\<rparr>,
              timer := timer s @ [StopTimer, StartTimer]\<rparr>"
proof (cases rule: AddTestCase_cases[where uri=uri and params=params and enc=enc and rb=rb and pb=pb])
  case parse
  with assms show ?thesis by (simp add: AddTestCase_parse_error)
next
  case (request key d j err)
  with assms show ?thesis by (simp add: AddTestCase_request_error)
next
  case (response key d j d' j' err)
  with assms show ?thesis by (simp add: AddTestCase_response_error)
next
  case (converted key d j d' j')
  let ?tc = "\<lparr>status = st, request_headers = rh, request_body = d, request_json = j,
              response_headers = ph, response_body = d'\<rparr>"
  show ?thesis
  proof (cases "already_registered ?tc (tests_at (tests s) method key)")
    case True
    with assms converted show ?thesis by (simp add: AddTestCase_duplicate)
  next
    case False
    with converted that[of key] show ?thesis
      by (simp add: AddTestCase_added)
  qed
qed

lemma testcase_uri_None_iff: "testcase_uri uri params = None \<longleftrightarrow> url_Parse (ensure_v1 uri) = None"
  by (simp add: testcase_uri_def split: option.splits)

lemma AddTestCase_parse_error_iff:
  "fst (AddTestCase enc s method uri st rh ph rb pb params) = Some CouldNotParseURI
   \<longleftrightarrow> testcase_uri uri params = None"
  by (simp add: AddTestCase_def AddTestCase_body_def stopTimer_def startTimer_def Let_def
      split: option.splits prod.splits)

lemma parse_bad_escape: "url_Parse (ensure_v1 ''zones/%zz'') = None"
  by (simp add: ensure_v1_def url_Parse_def Cut_def stringContainsCTLByte_def setPath_def ishex_def)

lemma convertBody_error_iff:
  "snd (snd (convertBody enc v)) = Some err \<longleftrightarrow> (\<exists>x. v = GoOther x \<and> enc x = Inl err)"
  by (cases v) (auto simp: json_Marshal_def split: sum.splits)

lemma key_zones_x: "testcase_uri ''zones/x'' [] = Some ''/v1/zones/x''"
  by (simp add: testcase_uri_def ensure_v1_def url_Parse_def Cut_def stringContainsCTLByte_def
      setPath_def baseUri_def shouldEscape_def ResolveReference_def EscapedPath_def
      resolvePath_def RequestURI_def with_params_def lastIndexSlash_def)

lemma registered_once_eq:
  "AddTestCase chan_enc new_service ''GET'' ''zones/x'' 200 None None
     (GoString ''a'') (GoString ''b'') []
   = (None, \<lparr>tests = append_test Map.empty ''GET'' ''/v1/zones/x''
               \<lparr>status = 200, request_headers = None, request_body = Some ''a'',
                request_json = False, response_headers = None, response_body = Some ''b''\<rparr>,
             timer = [StopTimer, StartTimer]\<rparr>)"
  by (simp add: AddTestCase_added[OF key_zones_x, where d="Some ''a''" and j=False
        and d'="Some ''b''" and j'=False] new_service_def tests_at_def tests_of_method_def)

lemma tests_registered_once:
  "tests registered_once = append_test Map.empty ''GET'' ''/v1/zones/x''
               \<lparr>status = 200, request_headers = None, request_body = Some ''a'',
                request_json = False, response_headers = None, response_body = Some ''b''\<rparr>"
  by (simp add: registered_once_def registered_once_eq)

lemma bucket_registered_once:
  "tests_at (tests registered_once) ''GET'' ''/v1/zones/x''
   = [\<lparr>status = 200, request_headers = None, request_body = Some ''a'',
       request_json = False, response_headers = None, response_body = Some ''b''\<rparr>]"
  by (simp add: tests_registered_once tests_at_append_test) (simp add: tests_at_def tests_of_method_def)

lemma no_true_duplicates_distinct:
  "no_true_duplicates t
   = (\<forall>method uri. distinct (map (\<lambda>tc. (request_headers tc, request_body tc))
                                (tests_at t method uri)))"
  unfolding no_true_duplicates_def distinct_conv_nth
  by (simp add: prod_eq_iff) blast

lemma no_true_duplicates_empty: "no_true_duplicates Map.empty"
  by (simp add: no_true_duplicates_def tests_at_def tests_of_method_def)

lemma tests_at_append_test_if:
  "tests_at (append_test t method uri tc) m u
   = (if (m, u) = (method, uri) then tests_at t method uri @ [tc] else tests_at t m u)"
  using tests_at_append_test[of t "method" uri tc] tests_at_append_test_other[of m u "method" uri t tc]
  by auto

lemma no_true_duplicates_append:
  assumes "no_true_duplicates t"
    and "\<not> already_registered tc (tests_at t method uri)"
  shows "no_true_duplicates (append_test t method uri tc)"
proof -
  have "(request_headers tc, request_body tc)
        \<notin> (\<lambda>tc. (request_headers tc, request_body tc)) ` set (tests_at t method uri)"
    using assms(2) by (auto simp: already_registered_iff)
  with assms(1) show ?thesis
    by (simp add: no_true_duplicates_distinct tests_at_append_test_if)
qed

lemma AddTestCase_tests:
  "tests (snd (AddTestCase enc s method uri st rh ph rb pb params)) = tests s
   \<or> (\<exists>key tc. \<not> already_registered tc (tests_at (tests s) method key)
        \<and> tests (snd (AddTestCase enc s method uri st rh ph rb pb params))
          = append_test (tests s) method key tc)"
proof (cases rule: AddTestCase_cases[where uri=uri and params=params and enc=enc and rb=rb and pb=pb])
  case parse
  then show ?thesis by (simp add: AddTestCase_parse_error)
next
  case (request key d j err)
  then show ?thesis by (simp add: AddTestCase_request_error)
next
  case (response key d j d' j' err)
  then show ?thesis by (simp add: AddTestCase_response_error)
next
  case (converted key d j d' j')
  let ?tc = "\<lparr>status = st, request_headers = rh, request_body = d, request_json = j,
              response_headers = ph, response_body = d'\<rparr>"
  show ?thesis
  proof (cases "already_registered ?tc (tests_at (tests s) method key)")
    case True
    with converted show ?thesis by (simp add: AddTestCase_duplicate)
  next
    case False
    with converted have "tests (snd (AddTestCase enc s method uri st rh ph rb pb params))
          = append_test (tests s) method key ?tc"
      by (simp add: AddTestCase_added)
    with False show ?thesis by blast
  qed
qed

lemma AddTestCase_no_true_duplicates:
  assumes "no_true_duplicates (tests s)"
  shows "no_true_duplicates (tests (snd (AddTestCase enc s method uri st rh ph rb pb params)))"
  using AddTestCase_tests[of enc s "method" uri st rh ph rb pb params] assms
  by (auto intro: no_true_duplicates_append)

lemma reachable_no_true_duplicates:
  "reachable enc s \<Longrightarrow> no_true_duplicates (tests s)"
proof (induction rule: reachable.induct)
  case (new s)
  then show ?case by (simp add: no_true_duplicates_empty)
next
  case (add s m uri st rh ph rb pb params)
  from add.IH show ?case by (rule AddTestCase_no_true_duplicates)
next
  case (clear s)
  show ?case by (simp add: ClearTestCases_def no_true_duplicates_empty)
qed

lemma registered_twice_bucket:
  "tests_at (tests (snd (AddTestCase chan_enc registered_once ''GET'' ''zones/x'' 201 None None
       GoNil (GoString ''c'') []))) ''GET'' ''/v1/zones/x''
   = [\<lparr>status = 200, request_headers = None, request_body = Some ''a'',
       request_json = False, response_headers = None, response_body = Some ''b''\<rparr>,
      \<lparr>status = 201, request_headers = None, request_body = Some ''null'',
       request_json = True, response_headers = None, response_body = Some ''c''\<rparr>]"
  by (simp add: AddTestCase_added[OF key_zones_x, where d="Some ''null''" and j=True
        and d'="Some ''c''" and j'=False] json_Marshal_def bucket_registered_once
        tests_at_append_test)

lemma already_registered_append:
  "already_registered tc (l @ [t])
   = (already_registered tc l
      \<or> request_headers tc = request_headers t \<and> request_body tc = request_body t)"
  by (auto simp: already_registered_iff)

lemma AddTestCase_error_of:
  assumes "testcase_uri uri params = Some key"
    and "convertBody enc rb = (d, j, None)"
  shows "fst (AddTestCase enc s method uri st rh ph rb pb params)
         = (case snd (snd (convertBody enc pb)) of
              Some err \<Rightarrow> Some (ConvertResponseBody err)
            | None \<Rightarrow>
                if already_registered \<lparr>status = st, request_headers = rh, request_body = d,
                      request_json = j, response_headers = ph,
                      response_body = fst (convertBody enc pb)\<rparr> (tests_at (tests s) method key)
                then Some AlreadyRegistered else None)"
proof (cases "convertBody enc pb")
  case (fields d' j' e)
  show ?thesis
  proof (cases e)
    case None
    with fields assms show ?thesis
      by (simp add: AddTestCase_duplicate AddTestCase_added)
  next
    case (Some err)
    with fields assms show ?thesis
      by (simp add: AddTestCase_response_error)
  qed
qed

lemma not_duplicate_of_other_body:
  assumes key: "testcase_uri uri params = Some key"
    and rb: "convertBody enc rb = (d, j, None)"
    and rb': "convertBody enc rb' = (d', j', None)"
    and diff: "d \<noteq> d'"
    and ok: "fst (AddTestCase enc s method uri st rh ph rb pb params) = None"
  shows "fst (AddTestCase enc (snd (AddTestCase enc s method uri st rh ph rb pb params))
                method uri st' rh ph' rb' pb' params)
         = fst (AddTestCase enc s method uri st' rh ph' rb' pb' params)"
proof -
  from ok obtain key' where k': "testcase_uri uri params = Some key'"
    and s': "snd (AddTestCase enc s method uri st rh ph rb pb params)
         = s\<lparr>tests := append_test (tests s) method key'
                \<lparr>status = st, request_headers = rh,
                 request_body = fst (convertBody enc rb), request_json = fst (snd (convertBody enc rb)),
                 response_headers = ph, response_body = fst (convertBody enc pb)\<rparr>,
              timer := timer s @ [StopTimer, StartTimer]\<rparr>"
    by (rule AddTestCase_success)
  from key k' have [simp]: "key' = key" by simp
  show ?thesis
    using diff
    by (simp add: AddTestCase_error_of[OF key rb'] s' rb tests_at_append_test
        already_registered_append)
qed

lemma nil_then_empty:
  "fst (AddTestCase chan_enc new_service ''GET'' ''zones/x'' 200 None None
          b (GoString ''b'') []) = None"
  if "b = GoNil \<or> b = GoBytes (Some []) \<or> b = GoString []"
proof -
  have e: "tests_at (tests new_service) ''GET'' ''/v1/zones/x'' = []"
    by (simp add: new_service_def tests_at_def tests_of_method_def)
  from that consider "b = GoNil" | "b = GoBytes (Some [])" | "b = GoString []" by blast
  then show ?thesis
  proof cases
    case 1
    then show ?thesis
      by (simp add: AddTestCase_added[OF key_zones_x, where d="Some ''null''" and j=True
            and d'="Some ''b''" and j'=False] json_Marshal_def e)
  next
    case 2
    then show ?thesis
      by (simp add: AddTestCase_added[OF key_zones_x, where d="Some []" and j=False
            and d'="Some ''b''" and j'=False] e)
  next
    case 3
    then show ?thesis
      by (simp add: AddTestCase_added[OF key_zones_x, where d="Some []" and j=False
            and d'="Some ''b''" and j'=False] e)
  qed
qed

section \<open>The claims\<close>

subsection \<open>Duplicates are rejected\<close>

text \<open>
  Claim C1, as amended. When the uri parses to the key \<open>key\<close>, the request body and the
  response body both convert without an error, and the bucket of \<open>(method, key)\<close> holds an
  entry with the same request headers and the same request body as the new one, then
  \<^verbatim>\<open>AddTestCase\<close> returns the error \<^verbatim>\<open>test case already registered\<close> and leaves
  \<^verbatim>\<open>s.tests\<close> as it was: nothing is inserted, no bucket changes. The response status, the
  response headers and the converted response body are arbitrary: they do not enter the
  comparison. Equality is Go's: a nil slice or map differs from an empty one.
\<close>

theorem AddTestCase_rejects_duplicate:
  assumes "testcase_uri uri params = Some key"
    and "convertBody enc rb = (d, j, None)"
    and "snd (snd (convertBody enc pb)) = None"
    and "test \<in> set (tests_at (tests s) method key)"
    and "request_headers test = rh"
    and "request_body test = d"
  shows "fst (AddTestCase enc s method uri st rh ph rb pb params) = Some AlreadyRegistered
       \<and> tests (snd (AddTestCase enc s method uri st rh ph rb pb params)) = tests s"
proof -
  obtain d' j' where pb: "convertBody enc pb = (d', j', None)"
    using assms(3) by (cases "convertBody enc pb") auto
  have "already_registered \<lparr>status = st, request_headers = rh, request_body = d,
           request_json = j, response_headers = ph, response_body = d'\<rparr>
          (tests_at (tests s) method key)"
    using assms(4,5,6) by (auto simp: already_registered_iff)
  from AddTestCase_duplicate[OF assms(1,2) pb this] show ?thesis by simp
qed

theorem AddTestCase_rejects_duplicate_witness:
  "fst (AddTestCase chan_enc registered_once ''GET'' ''zones/x'' 404 None (Some Map.empty)
          (GoString ''a'') (GoString ''other'') []) = Some AlreadyRegistered
   \<and> tests (snd (AddTestCase chan_enc registered_once ''GET'' ''zones/x'' 404 None
          (Some Map.empty) (GoString ''a'') (GoString ''other'') [])) = tests registered_once"
  by (rule AddTestCase_rejects_duplicate[OF key_zones_x, where d="Some ''a''" and j=False
        and test="\<lparr>status = 200, request_headers = None, request_body = Some ''a'',
         request_json = False, response_headers = None, response_body = Some ''b''\<rparr>"])
     (simp_all add: bucket_registered_once)

text \<open>
  As first stated the claim asks nothing of the response body. The bodies are converted
  (lines 481-487) before the bucket is searched (lines 496-504): a registration that repeats
  the request of an entry but whose response body cannot be marshaled returns the conversion
  error, not the duplicate error.
\<close>

theorem duplicate_with_unconvertible_response:
  "tests_at (tests registered_once) ''GET'' ''/v1/zones/x''
     = [\<lparr>status = 200, request_headers = None, request_body = Some ''a'',
         request_json = False, response_headers = None, response_body = Some ''b''\<rparr>]
   \<and> testcase_uri ''zones/x'' [] = Some ''/v1/zones/x''
   \<and> convertBody chan_enc (GoString ''a'') = (Some ''a'', False, None)
   \<and> AddTestCase chan_enc registered_once ''GET'' ''zones/x'' 200 None None
        (GoString ''a'') (GoOther ()) []
     = (Some (ConvertResponseBody ''json: unsupported type: chan int''),
        registered_once\<lparr>timer := timer registered_once @ [StopTimer, StartTimer]\<rparr>)
   \<and> fst (AddTestCase chan_enc registered_once ''GET'' ''zones/x'' 200 None None
        (GoString ''a'') (GoOther ()) []) \<noteq> Some AlreadyRegistered"
proof -
  have "AddTestCase chan_enc registered_once ''GET'' ''zones/x'' 200 None None
        (GoString ''a'') (GoOther ()) []
     = (Some (ConvertResponseBody ''json: unsupported type: chan int''),
        registered_once\<lparr>timer := timer registered_once @ [StopTimer, StartTimer]\<rparr>)"
    by (rule AddTestCase_response_error[OF key_zones_x, where d="Some ''a''" and j=False
          and d'=None and j'=True])
       (simp_all add: chan_enc_def json_Marshal_def)
  then show ?thesis
    by (simp add: bucket_registered_once key_zones_x)
qed

subsection \<open>No two entries of a bucket share a request\<close>

text \<open>
  Claim C2. The predicate \<^const>\<open>no_true_duplicates\<close> (in each bucket, two entries at
  different positions differ in their request headers or in their request body) holds of the
  empty registry, is preserved by \<^verbatim>\<open>AddTestCase\<close> whatever it returns, holds after
  \<^verbatim>\<open>ClearTestCases\<close>, and so holds of every service reached from one without test cases.
\<close>

theorem no_true_duplicates_invariant:
  "no_true_duplicates Map.empty
   \<and> (no_true_duplicates (tests s) \<longrightarrow>
        no_true_duplicates (tests (snd (AddTestCase enc s method uri st rh ph rb pb params))))
   \<and> no_true_duplicates (tests (ClearTestCases s))
   \<and> (reachable enc s' \<longrightarrow> no_true_duplicates (tests s'))"
  by (simp add: no_true_duplicates_empty AddTestCase_no_true_duplicates
      reachable_no_true_duplicates ClearTestCases_def)

theorem no_true_duplicates_invariant_witness:
  "no_true_duplicates (tests registered_once)
   \<and> no_true_duplicates (tests (snd (AddTestCase chan_enc registered_once ''GET'' ''zones/x'' 201
        None None GoNil (GoString ''c'') [])))
   \<and> length (tests_at (tests (snd (AddTestCase chan_enc registered_once ''GET'' ''zones/x'' 201
        None None GoNil (GoString ''c'') []))) ''GET'' ''/v1/zones/x'') = 2"
proof -
  have "reachable chan_enc new_service"
    by (rule reachable.new) (simp add: new_service_def)
  then have r: "reachable chan_enc registered_once"
    unfolding registered_once_def by (rule reachable.add)
  have 1: "no_true_duplicates (tests registered_once)"
    using no_true_duplicates_invariant[of _ chan_enc _ _ _ _ _ _ _ _ registered_once] r by blast
  have 2: "no_true_duplicates (tests (snd (AddTestCase chan_enc registered_once ''GET''
        ''zones/x'' 201 None None GoNil (GoString ''c'') [])))"
    using no_true_duplicates_invariant[of registered_once chan_enc "''GET''" "''zones/x''" 201 None None GoNil
        "GoString ''c''" "[]"] 1 by blast
  show ?thesis using 1 2 by (simp add: registered_twice_bucket)
qed

subsection \<open>Body conversion\<close>

text \<open>
  Claim C5. \<^verbatim>\<open>convertBody\<close> returns a byte slice as it is and a string as its bytes, both
  with \<^verbatim>\<open>json = false\<close>; any other value, the nil interface too, goes to \<^verbatim>\<open>json.Marshal\<close>
  and comes back with \<^verbatim>\<open>json = true\<close>, with the encoder's data or its error.
  \<^verbatim>\<open>AddTestCase\<close> converts the bodies once the uri has been parsed (an unparsable uri
  returns at line 460, before any conversion). When the request body then fails to convert it
  returns \<^verbatim>\<open>unable to convert request body\<close>, when the response body fails it returns
  \<^verbatim>\<open>unable to convert response body\<close>, and either way the service keeps its test cases
  unchanged. Whatever the uri, a body that cannot be converted means an error and unchanged
  test cases.
\<close>

theorem convertBody_three_way:
  "convertBody enc (GoBytes b) = (b, False, None)
   \<and> convertBody enc (GoString str) = (Some str, False, None)
   \<and> convertBody enc GoNil = (fst (json_Marshal enc None), True, snd (json_Marshal enc None))
   \<and> convertBody enc (GoOther x)
       = (case enc x of Inl err \<Rightarrow> (None, True, Some err) | Inr data \<Rightarrow> (Some data, True, None))
   \<and> (testcase_uri uri params \<noteq> None \<and> snd (snd (convertBody enc rb)) = Some err \<longrightarrow>
        AddTestCase enc s method uri st rh ph rb pb params
        = (Some (ConvertRequestBody err), s\<lparr>timer := timer s @ [StopTimer, StartTimer]\<rparr>))
   \<and> (testcase_uri uri params \<noteq> None \<and> snd (snd (convertBody enc rb)) = None
        \<and> snd (snd (convertBody enc pb)) = Some err \<longrightarrow>
        AddTestCase enc s method uri st rh ph rb pb params
        = (Some (ConvertResponseBody err), s\<lparr>timer := timer s @ [StopTimer, StartTimer]\<rparr>))
   \<and> (snd (snd (convertBody enc rb)) \<noteq> None \<or> snd (snd (convertBody enc pb)) \<noteq> None \<longrightarrow>
        fst (AddTestCase enc s method uri st rh ph rb pb params) \<noteq> None
        \<and> tests (snd (AddTestCase enc s method uri st rh ph rb pb params)) = tests s)"
proof -
  have a: "convertBody enc (GoOther x)
       = (case enc x of Inl err \<Rightarrow> (None, True, Some err) | Inr data \<Rightarrow> (Some data, True, None))"
    by (simp add: json_Marshal_def split: sum.splits)
  have b: "AddTestCase enc s method uri st rh ph rb pb params
        = (Some (ConvertRequestBody err), s\<lparr>timer := timer s @ [StopTimer, StartTimer]\<rparr>)"
    if "testcase_uri uri params \<noteq> None" "snd (snd (convertBody enc rb)) = Some err"
    using that by (cases "convertBody enc rb") (auto simp: AddTestCase_request_error)
  have c: "AddTestCase enc s method uri st rh ph rb pb params
        = (Some (ConvertResponseBody err), s\<lparr>timer := timer s @ [StopTimer, StartTimer]\<rparr>)"
    if "testcase_uri uri params \<noteq> None" "snd (snd (convertBody enc rb)) = None"
       "snd (snd (convertBody enc pb)) = Some err"
    using that
    by (cases "convertBody enc rb"; cases "convertBody enc pb")
       (auto simp: AddTestCase_response_error)
  have d: "fst (AddTestCase enc s method uri st rh ph rb pb params) \<noteq> None
        \<and> tests (snd (AddTestCase enc s method uri st rh ph rb pb params)) = tests s"
    if "snd (snd (convertBody enc rb)) \<noteq> None \<or> snd (snd (convertBody enc pb)) \<noteq> None"
    using that
    by (cases rule: AddTestCase_cases[where uri=uri and params=params and enc=enc and rb=rb and pb=pb])
       (auto simp: AddTestCase_parse_error AddTestCase_request_error AddTestCase_response_error)
  show ?thesis using a b c d by simp
qed

theorem convertBody_three_way_witness:
  "AddTestCase chan_enc \<lparr>tests = Map.empty, timer = []\<rparr> ''GET'' ''zones/x'' 200 None None
       (GoOther ()) (GoString ''b'') []
     = (Some (ConvertRequestBody ''json: unsupported type: chan int''),
        \<lparr>tests = Map.empty, timer = [StopTimer, StartTimer]\<rparr>)
   \<and> AddTestCase chan_enc \<lparr>tests = Map.empty, timer = []\<rparr> ''GET'' ''zones/x'' 200 None None
       (GoString ''a'') (GoOther ()) []
     = (Some (ConvertResponseBody ''json: unsupported type: chan int''),
        \<lparr>tests = Map.empty, timer = [StopTimer, StartTimer]\<rparr>)"
proof -
  note t = convertBody_three_way[of chan_enc _ _ "()" "''zones/x''" "[]" _ "''json: unsupported type: chan int''"
      "\<lparr>tests = Map.empty, timer = []\<rparr>" "''GET''" 200 None None]
  have 1: "AddTestCase chan_enc \<lparr>tests = Map.empty, timer = []\<rparr> ''GET'' ''zones/x'' 200 None None
       (GoOther ()) (GoString ''b'') []
     = (Some (ConvertRequestBody ''json: unsupported type: chan int''),
        \<lparr>tests = Map.empty, timer = [StopTimer, StartTimer]\<rparr>)"
    using t[of _ _ "GoOther ()" "GoString ''b''"]
    by (simp add: key_zones_x chan_enc_def json_Marshal_def)
  have 2: "AddTestCase chan_enc \<lparr>tests = Map.empty, timer = []\<rparr> ''GET'' ''zones/x'' 200 None None
       (GoString ''a'') (GoOther ()) []
     = (Some (ConvertResponseBody ''json: unsupported type: chan int''),
        \<lparr>tests = Map.empty, timer = [StopTimer, StartTimer]\<rparr>)"
    using t[of _ _ "GoString ''a''" "GoOther ()"]
    by (simp add: key_zones_x chan_enc_def json_Marshal_def)
  show ?thesis using 1 2 by simp
qed

subsection \<open>An unparsable uri\<close>

text \<open>
  Claim C6. \<^verbatim>\<open>AddTestCase\<close> returns \<^verbatim>\<open>could not parse testcase uri\<close> exactly when
  \<^verbatim>\<open>url.Parse\<close> fails on the uri with its \<^verbatim>\<open>/v1/\<close> prefix ensured, and then
  \<^verbatim>\<open>s.tests\<close> is unchanged.
\<close>

theorem AddTestCase_malformed_uri:
  "(fst (AddTestCase enc s method uri st rh ph rb pb params) = Some CouldNotParseURI)
     = (url_Parse (ensure_v1 uri) = None)
   \<and> (url_Parse (ensure_v1 uri) = None \<longrightarrow>
        tests (snd (AddTestCase enc s method uri st rh ph rb pb params)) = tests s)"
proof -
  have "tests (snd (AddTestCase enc s method uri st rh ph rb pb params)) = tests s"
    if "url_Parse (ensure_v1 uri) = None"
  proof -
    from that have "testcase_uri uri params = None" by (simp add: testcase_uri_None_iff)
    then show ?thesis by (simp add: AddTestCase_parse_error)
  qed
  then show ?thesis
    by (simp add: AddTestCase_parse_error_iff testcase_uri_None_iff)
qed

theorem AddTestCase_malformed_uri_witness:
  "url_Parse (ensure_v1 ''zones/%zz'') = None
   \<and> fst (AddTestCase chan_enc \<lparr>tests = Map.empty, timer = []\<rparr> ''GET'' ''zones/%zz'' 200 None None
           (GoString ''a'') (GoString ''b'') []) = Some CouldNotParseURI
   \<and> tests (snd (AddTestCase chan_enc \<lparr>tests = Map.empty, timer = []\<rparr> ''GET'' ''zones/%zz'' 200
           None None (GoString ''a'') (GoString ''b'') [])) = Map.empty"
  using AddTestCase_malformed_uri[of chan_enc "\<lparr>tests = Map.empty, timer = []\<rparr>" "''GET''" "''zones/%zz''" 200
      None None "GoString ''a''" "GoString ''b''" "[]"]
  by (simp add: parse_bad_escape)

subsection \<open>Clearing\<close>

text \<open>
  Claim C7. \<^verbatim>\<open>ClearTestCases\<close> has no error to return. After it \<^verbatim>\<open>s.tests\<close> is the empty
  map, so every method and every (method, uri) lookup misses; the timer is not touched. An
  \<^verbatim>\<open>AddTestCase\<close> that follows returns the same error, and leaves the same test cases, as
  the same call on a service that never had a test case (whatever its timer \<open>tm\<close> did).
\<close>

theorem ClearTestCases_discards_all:
  "tests (ClearTestCases s) = Map.empty
   \<and> (\<forall>method uri. tests (ClearTestCases s) method = None
                  \<and> tests_at (tests (ClearTestCases s)) method uri = [])
   \<and> timer (ClearTestCases s) = timer s
   \<and> fst (AddTestCase enc (ClearTestCases s) method uri st rh ph rb pb params)
       = fst (AddTestCase enc \<lparr>tests = Map.empty, timer = tm\<rparr> method uri st rh ph rb pb params)
   \<and> tests (snd (AddTestCase enc (ClearTestCases s) method uri st rh ph rb pb params))
       = tests (snd (AddTestCase enc \<lparr>tests = Map.empty, timer = tm\<rparr> method uri st rh ph rb pb params))"
proof -
  have e: "tests (ClearTestCases s) = tests \<lparr>tests = Map.empty, timer = tm\<rparr>"
    by (simp add: ClearTestCases_def)
  show ?thesis
    using AddTestCase_tests_only[OF e, of enc "method" uri st rh ph rb pb params]
    by (simp add: ClearTestCases_def tests_at_def tests_of_method_def)
qed

subsection \<open>The timer\<close>

text \<open>
  Claim C8. For every argument list and every service, so on each of the five return paths,
  a call of \<^verbatim>\<open>AddTestCase\<close> adds exactly one \<^verbatim>\<open>stopTimer\<close> followed by exactly one
  \<^verbatim>\<open>startTimer\<close> to the calls the timer has seen, and so returns with the timer running.
\<close>

theorem AddTestCase_restarts_timer: 
  "timer (snd (AddTestCase enc s method uri st rh ph rb pb params)) = timer s @ [StopTimer, StartTimer]
   \<and> timer_running (timer (snd (AddTestCase enc s method uri st rh ph rb pb params)))"
proof -
  have "timer_running ((timer s @ [StopTimer]) @ [StartTimer])"
    by (rule timer_running_start)
  then show ?thesis by (simp add: AddTestCase_timer)
qed

subsection \<open>A successful registration\<close>

text \<open>
  Claim C9. When \<^verbatim>\<open>AddTestCase\<close> returns no error, the uri parsed to a key, the bucket of
  \<open>(method, key)\<close> is its former list (empty when there was none) with the new test case
  appended at the end, and every other bucket is as before: the maps of the other methods
  are untouched, and so is every other uri of this method.
\<close>

theorem AddTestCase_success_appends:
  assumes "fst (AddTestCase enc s method uri st rh ph rb pb params) = None"
  shows "\<exists>key. testcase_uri uri params = Some key
    \<and> tests_at (tests (snd (AddTestCase enc s method uri st rh ph rb pb params))) method key
      = tests_at (tests s) method key
        @ [\<lparr>status = st, request_headers = rh,
             request_body = fst (convertBody enc rb), request_json = fst (snd (convertBody enc rb)),
             response_headers = ph, response_body = fst (convertBody enc pb)\<rparr>]
    \<and> (\<forall>m. m \<noteq> method \<longrightarrow>
          tests (snd (AddTestCase enc s method uri st rh ph rb pb params)) m = tests s m)
    \<and> (\<forall>u. u \<noteq> key \<longrightarrow>
          tests_of_method (tests (snd (AddTestCase enc s method uri st rh ph rb pb params))) method u
          = tests_of_method (tests s) method u)
    \<and> (\<forall>m u. (m, u) \<noteq> (method, key) \<longrightarrow>
          tests_at (tests (snd (AddTestCase enc s method uri st rh ph rb pb params))) m u
          = tests_at (tests s) m u)"
  using assms
proof (rule AddTestCase_success)
  fix key
  assume k: "testcase_uri uri params = Some key"
    and s': "snd (AddTestCase enc s method uri st rh ph rb pb params)
         = s\<lparr>tests := append_test (tests s) method key
                \<lparr>status = st, request_headers = rh,
                 request_body = fst (convertBody enc rb), request_json = fst (snd (convertBody enc rb)),
                 response_headers = ph, response_body = fst (convertBody enc pb)\<rparr>,
              timer := timer s @ [StopTimer, StartTimer]\<rparr>"
  show ?thesis
    apply (rule exI[of _ key])
    apply (simp only: s' k)
    apply (simp add: tests_at_append_test append_test_other_method append_test_other_uri)
    apply (auto simp: tests_at_append_test_other)
    done
qed

theorem AddTestCase_success_appends_witness:
  "fst (AddTestCase chan_enc new_service ''GET'' ''zones/x'' 200 None None
          (GoString ''a'') (GoString ''b'') []) = None
   \<and> tests_at (tests (snd (AddTestCase chan_enc new_service ''GET'' ''zones/x'' 200 None None
          (GoString ''a'') (GoString ''b'') []))) ''GET'' ''/v1/zones/x''
     = [\<lparr>status = 200, request_headers = None, request_body = Some ''a'',
         request_json = False, response_headers = None, response_body = Some ''b''\<rparr>]
   \<and> tests (snd (AddTestCase chan_enc new_service ''GET'' ''zones/x'' 200 None None
          (GoString ''a'') (GoString ''b'') [])) ''PUT'' = None"
proof -
  have ok: "fst (AddTestCase chan_enc new_service ''GET'' ''zones/x'' 200 None None
          (GoString ''a'') (GoString ''b'') []) = None"
    by (simp add: registered_once_eq)
  from AddTestCase_success_appends[OF ok] obtain key where
    k: "testcase_uri ''zones/x'' [] = Some key"
    and b: "tests_at (tests (snd (AddTestCase chan_enc new_service ''GET'' ''zones/x'' 200 None
              None (GoString ''a'') (GoString ''b'') []))) ''GET'' key
            = tests_at (tests new_service) ''GET'' key
              @ [\<lparr>status = 200, request_headers = None,
                  request_body = fst (convertBody chan_enc (GoString ''a'')),
                  request_json = fst (snd (convertBody chan_enc (GoString ''a''))),
                  response_headers = None,
                  response_body = fst (convertBody chan_enc (GoString ''b''))\<rparr>]"
    and m: "\<forall>m. m \<noteq> ''GET'' \<longrightarrow>
              tests (snd (AddTestCase chan_enc new_service ''GET'' ''zones/x'' 200 None
                None (GoString ''a'') (GoString ''b'') [])) m = tests new_service m"
    by blast
  from k have key: "key = ''/v1/zones/x''" by (simp add: key_zones_x)
  have "tests_at (tests new_service) ''GET'' key = []"
    by (simp add: new_service_def tests_at_def tests_of_method_def)
  with b key have b': "tests_at (tests (snd (AddTestCase chan_enc new_service ''GET'' ''zones/x''
      200 None None (GoString ''a'') (GoString ''b'') []))) ''GET'' ''/v1/zones/x''
     = [\<lparr>status = 200, request_headers = None, request_body = Some ''a'',
         request_json = False, response_headers = None, response_body = Some ''b''\<rparr>]"
    by simp
  from m have "tests (snd (AddTestCase chan_enc new_service ''GET'' ''zones/x'' 200 None
                None (GoString ''a'') (GoString ''b'') [])) ''PUT'' = tests new_service ''PUT''"
    by simp
  then have m': "tests (snd (AddTestCase chan_enc new_service ''GET'' ''zones/x'' 200 None
                None (GoString ''a'') (GoString ''b'') [])) ''PUT'' = None"
    by (simp add: new_service_def)
  from ok b' m' show ?thesis by simp
qed

subsection \<open>A nil body\<close>

text \<open>
  Claim C10. \<^verbatim>\<open>convertBody(nil)\<close> is the four bytes \<^verbatim>\<open>null\<close> with \<^verbatim>\<open>json = true\<close> and no
  error; an empty byte slice and an empty string give no bytes with \<^verbatim>\<open>json = false\<close>. A
  successful registration with a nil request body stores \<^verbatim>\<open>null\<close> as the body of the
  entry it appends. That entry is no duplicate of a registration with an empty byte slice or
  an empty string as request body, and the other way round: after either has been
  registered, registering the other (same method, uri, parameters and request headers)
  returns what it would have returned without it.
\<close>

theorem convertBody_nil_is_null:
  "convertBody enc GoNil = (Some ''null'', True, None)
   \<and> convertBody enc (GoBytes (Some [])) = (Some [], False, None)
   \<and> convertBody enc (GoString []) = (Some [], False, None)
   \<and> (fst (AddTestCase enc s method uri st rh ph GoNil pb params) = None \<longrightarrow>
        (\<exists>key. testcase_uri uri params = Some key
           \<and> request_body (last (tests_at (tests (snd
                (AddTestCase enc s method uri st rh ph GoNil pb params))) method key)) = Some ''null''
           \<and> request_json (last (tests_at (tests (snd
                (AddTestCase enc s method uri st rh ph GoNil pb params))) method key)))
        \<and> fst (AddTestCase enc (snd (AddTestCase enc s method uri st rh ph GoNil pb params))
                  method uri st' rh ph' (GoBytes (Some [])) pb' params)
          = fst (AddTestCase enc s method uri st' rh ph' (GoBytes (Some [])) pb' params)
        \<and> fst (AddTestCase enc (snd (AddTestCase enc s method uri st rh ph GoNil pb params))
                  method uri st' rh ph' (GoString []) pb' params)
          = fst (AddTestCase enc s method uri st' rh ph' (GoString []) pb' params))
   \<and> (fst (AddTestCase enc s method uri st rh ph (GoBytes (Some [])) pb params) = None \<longrightarrow>
        fst (AddTestCase enc (snd (AddTestCase enc s method uri st rh ph (GoBytes (Some [])) pb params))
                  method uri st' rh ph' GoNil pb' params)
          = fst (AddTestCase enc s method uri st' rh ph' GoNil pb' params))
   \<and> (fst (AddTestCase enc s method uri st rh ph (GoString []) pb params) = None \<longrightarrow>
        fst (AddTestCase enc (snd (AddTestCase enc s method uri st rh ph (GoString []) pb params))
                  method uri st' rh ph' GoNil pb' params)
          = fst (AddTestCase enc s method uri st' rh ph' GoNil pb' params))"
proof -
  have nil: "convertBody enc GoNil = (Some ''null'', True, None)"
    by (simp add: json_Marshal_def)
  have bytes: "convertBody enc (GoBytes (Some [])) = (Some [], False, None)" by simp
  have str: "convertBody enc (GoString []) = (Some [], False, None)" by simp
  have differ: "Some ''null'' \<noteq> Some ([]::string)" "Some ([]::string) \<noteq> Some ''null''" by simp_all
  have a: "\<exists>key. testcase_uri uri params = Some key
           \<and> request_body (last (tests_at (tests (snd
                (AddTestCase enc s method uri st rh ph GoNil pb params))) method key)) = Some ''null''
           \<and> request_json (last (tests_at (tests (snd
                (AddTestCase enc s method uri st rh ph GoNil pb params))) method key))"
    if ok: "fst (AddTestCase enc s method uri st rh ph GoNil pb params) = None"
  proof -
    from ok obtain key where k: "testcase_uri uri params = Some key"
      and s': "snd (AddTestCase enc s method uri st rh ph GoNil pb params)
         = s\<lparr>tests := append_test (tests s) method key
                \<lparr>status = st, request_headers = rh,
                 request_body = fst (convertBody enc GoNil),
                 request_json = fst (snd (convertBody enc GoNil)),
                 response_headers = ph, response_body = fst (convertBody enc pb)\<rparr>,
              timer := timer s @ [StopTimer, StartTimer]\<rparr>"
      by (rule AddTestCase_success)
    show ?thesis
      by (rule exI[of _ key]) (simp add: k s' tests_at_append_test json_Marshal_def)
  qed
  have key_of: "\<exists>key. testcase_uri uri params = Some key"
    if "fst (AddTestCase enc s method uri st rh ph b pb params) = None" for b
    using that by (rule AddTestCase_success) blast
  have b: "fst (AddTestCase enc (snd (AddTestCase enc s method uri st rh ph GoNil pb params))
                  method uri st' rh ph' (GoBytes (Some [])) pb' params)
          = fst (AddTestCase enc s method uri st' rh ph' (GoBytes (Some [])) pb' params)"
    if ok: "fst (AddTestCase enc s method uri st rh ph GoNil pb params) = None"
    using key_of[OF ok] not_duplicate_of_other_body[OF _ nil bytes differ(1) ok] by blast
  have c: "fst (AddTestCase enc (snd (AddTestCase enc s method uri st rh ph GoNil pb params))
                  method uri st' rh ph' (GoString []) pb' params)
          = fst (AddTestCase enc s method uri st' rh ph' (GoString []) pb' params)"
    if ok: "fst (AddTestCase enc s method uri st rh ph GoNil pb params) = None"
    using key_of[OF ok] not_duplicate_of_other_body[OF _ nil str differ(1) ok] by blast
  have d: "fst (AddTestCase enc (snd (AddTestCase enc s method uri st rh ph (GoBytes (Some [])) pb params))
                  method uri st' rh ph' GoNil pb' params)
          = fst (AddTestCase enc s method uri st' rh ph' GoNil pb' params)"
    if ok: "fst (AddTestCase enc s method uri st rh ph (GoBytes (Some [])) pb params) = None"
    using key_of[OF ok] not_duplicate_of_other_body[OF _ bytes nil differ(2) ok] by blast
  have e: "fst (AddTestCase enc (snd (AddTestCase enc s method uri st rh ph (GoString []) pb params))
                  method uri st' rh ph' GoNil pb' params)
          = fst (AddTestCase enc s method uri st' rh ph' GoNil pb' params)"
    if ok: "fst (AddTestCase enc s method uri st rh ph (GoString []) pb params) = None"
    using key_of[OF ok] not_duplicate_of_other_body[OF _ str nil differ(2) ok] by blast
  from nil bytes str a b c d e show ?thesis by blast
qed

theorem convertBody_nil_is_null_witness:
  "fst (AddTestCase chan_enc new_service ''GET'' ''zones/x'' 200 None None
          GoNil (GoString ''b'') []) = None
   \<and> fst (AddTestCase chan_enc
            (snd (AddTestCase chan_enc new_service ''GET'' ''zones/x'' 200 None None
                    GoNil (GoString ''b'') []))
            ''GET'' ''zones/x'' 200 None None (GoBytes (Some [])) (GoString ''b'') []) = None
   \<and> fst (AddTestCase chan_enc
            (snd (AddTestCase chan_enc new_service ''GET'' ''zones/x'' 200 None None
                    GoNil (GoString ''b'') []))
            ''GET'' ''zones/x'' 200 None None (GoString []) (GoString ''b'') []) = None
   \<and> fst (AddTestCase chan_enc
            (snd (AddTestCase chan_enc new_service ''GET'' ''zones/x'' 200 None None
                    (GoBytes (Some [])) (GoString ''b'') []))
            ''GET'' ''zones/x'' 200 None None GoNil (GoString ''b'') []) = None
   \<and> fst (AddTestCase chan_enc
            (snd (AddTestCase chan_enc new_service ''GET'' ''zones/x'' 200 None None
                    (GoString []) (GoString ''b'') []))
            ''GET'' ''zones/x'' 200 None None GoNil (GoString ''b'') []) = None"
  using convertBody_nil_is_null[of chan_enc new_service "''GET''" "''zones/x''" 200 None None "GoString ''b''" "[]"
      200 None "GoString ''b''"]
  by (simp add: nil_then_empty)

end
